theory Spec2Isabelle
  imports Main
begin

section \<open>Payloads exchanged over the socket\<close>

text \<open>
  The server of the chat application is the \<^verbatim>\<open>io.on('connection', ...)\<close> block of the
  backend (Socket.io 4.7.5 according to the backend guide), the client is the component
  \<^verbatim>\<open>SingleChat.js\<close>. Socket ids, room names and the \<^verbatim>\<open>_id\<close> fields of users and
  chats are strings. Every object the handlers read a property of may be missing
  (\<^verbatim>\<open>null\<close> or \<^verbatim>\<open>undefined\<close>): \<^verbatim>\<open>userData\<close>, \<^verbatim>\<open>messageData\<close>,
  \<^verbatim>\<open>messageData.chat\<close>, \<^verbatim>\<open>messageData.sender\<close> and each element of
  \<^verbatim>\<open>chat.users\<close> are options, and reading through \<open>None\<close> is the
  \<^verbatim>\<open>TypeError\<close> JavaScript throws. \<^verbatim>\<open>chat.users\<close> itself is either an array or a
  value without \<^verbatim>\<open>forEach\<close> (missing, or any other value a payload can carry), on
  which the call throws the same error.
\<close>

type_synonym sid = string
type_synonym room = string

record user =
  user_id :: string
  user_name :: string

datatype users_field = NotArray | UserArray "user option list"

record chat =
  chat_id :: string
  users :: users_field

record messageData =
  sender :: "user option"
  chat :: "chat option"
  content :: string

datatype error = TypeError

text \<open>An event on the wire: its name and its argument (\<^verbatim>\<open>'connected'\<close> has none).\<close>

datatype packet = Packet (ev: string) (arg: "messageData option")

section \<open>The server state and the Socket.io primitives the handlers call\<close>

text \<open>
  The in-memory adapter of Socket.io keeps two indexes, \<^verbatim>\<open>rooms\<close> (room to set of
  socket ids, an absent room read as the empty set) and \<^verbatim>\<open>sids\<close> (socket id to set
  of rooms, present exactly for the live sockets). \<open>outbox\<close> is, per socket, the list of
  packets written to its transport, oldest first; \<open>console\<close> is what
  \<^verbatim>\<open>console.log\<close> printed.
\<close>

record server =
  rooms :: "room \<Rightarrow> sid set"
  sids :: "sid \<Rightarrow> room set option"
  outbox :: "sid \<Rightarrow> packet list"
  console :: "string list"

definition io_init :: server where
  "io_init = \<lparr>rooms = (\<lambda>r. {}), sids = (\<lambda>c. None), outbox = (\<lambda>c. []), console = []\<rparr>"

definition connected :: "server \<Rightarrow> sid \<Rightarrow> bool" where
  "connected s c = (sids s c \<noteq> None)"

definition membersOf :: "room \<Rightarrow> server \<Rightarrow> sid set" where
  "membersOf r s = rooms s r"

definition joinedRooms :: "sid \<Rightarrow> server \<Rightarrow> room set" where
  "joinedRooms c s = (case sids s c of None \<Rightarrow> {} | Some R \<Rightarrow> R)"

text \<open>
  What a handler leaves behind: the state it returns with, or the error it throws
  together with the state at the throw (what it did before stays done).
\<close>

type_synonym outcome = "(error \<times> server) + server"

definition console_log :: "string \<Rightarrow> server \<Rightarrow> server" where
  "console_log line s = s\<lparr>console := console s @ [line]\<rparr>"

text \<open>
  \<^verbatim>\<open>socket.join(room)\<close> is the adapter's \<^verbatim>\<open>addAll(id, {room})\<close>: the room is added
  to the socket's set (created when absent) and the socket to the room's set. Both are
  sets, so nothing is checked and nothing fails.
\<close>

definition socket_join :: "sid \<Rightarrow> room \<Rightarrow> server \<Rightarrow> server" where
  "socket_join c r s =
     s\<lparr>sids := (sids s)(c \<mapsto> insert r (joinedRooms c s)),
       rooms := (rooms s)(r := insert c (rooms s r))\<rparr>"

text \<open>
  \<^verbatim>\<open>delAll(id)\<close>, which Socket.io runs when a socket closes: the socket leaves every
  room of its set and its entry is dropped; nothing happens for an unknown id.
\<close>

definition delAll :: "sid \<Rightarrow> server \<Rightarrow> server" where
  "delAll c s =
     (case sids s c of
        None \<Rightarrow> s
      | Some R \<Rightarrow>
          s\<lparr>rooms := (\<lambda>r. if r \<in> R then rooms s r - {c} else rooms s r),
            sids := (sids s)(c := None)\<rparr>)"

text \<open>
  \<^verbatim>\<open>socket.emit(ev)\<close>: one packet to the socket itself. Like every emit of Socket.io
  it returns \<^verbatim>\<open>true\<close>.
\<close>

definition socket_emit :: "sid \<Rightarrow> packet \<Rightarrow> server \<Rightarrow> bool \<times> server" where
  "socket_emit c p s = (True, s\<lparr>outbox := (outbox s)(c := outbox s c @ [p])\<rparr>)"

text \<open>
  \<^verbatim>\<open>socket.to(room).emit(ev, data)\<close> (and its alias \<^verbatim>\<open>socket.in\<close>): a broadcast
  operator with the one target room and the except-set \<^verbatim>\<open>{socket.id}\<close>, itself a set
  of rooms. The adapter writes the packet once to every socket that is in the target
  room, is not in a room of the except-set and is still live. The call returns
  \<^verbatim>\<open>true\<close>, whoever got the packet.
\<close>

definition socket_to_emit :: "sid \<Rightarrow> room \<Rightarrow> packet \<Rightarrow> server \<Rightarrow> bool \<times> server" where
  "socket_to_emit c r p s =
     (True,
      s\<lparr>outbox := (\<lambda>d. if d \<in> rooms s r \<and> d \<notin> rooms s c \<and> connected s d
                          then outbox s d @ [p] else outbox s d)\<rparr>)"

section \<open>The handlers of the connection block\<close>

text \<open>\<^verbatim>\<open>io.on('connection', (socket) => { console.log('User connected:', socket.id); ...\<close>\<close>

definition on_connection :: "sid \<Rightarrow> server \<Rightarrow> server" where
  "on_connection c s = console_log (''User connected: '' @ c) s"

text \<open>\<^verbatim>\<open>socket.on('setup', (userData) => { socket.join(userData._id); socket.emit('connected'); })\<close>\<close>

definition on_setup :: "sid \<Rightarrow> user option \<Rightarrow> server \<Rightarrow> outcome" where
  "on_setup c userData s =
     (case userData of
        None \<Rightarrow> Inl (TypeError, s)
      | Some u \<Rightarrow>
          Inr (snd (socket_emit c (Packet ''connected'' None) (socket_join c (user_id u) s))))"

text \<open>\<^verbatim>\<open>socket.on('join chat', (roomId) => { socket.join(roomId); console.log('User joined room:', roomId); })\<close>\<close>

definition on_join_chat :: "sid \<Rightarrow> room \<Rightarrow> server \<Rightarrow> server" where
  "on_join_chat c roomId s = console_log (''User joined room: '' @ roomId) (socket_join c roomId s)"

text \<open>
  The loop \<^verbatim>\<open>chat.users.forEach((user) => { if (user._id !== messageData.sender._id)
  socket.to(user._id).emit('message received', messageData); })\<close> over the elements
  of the array. In each iteration \<^verbatim>\<open>user._id\<close> is read first and
  \<^verbatim>\<open>messageData.sender._id\<close> second; either read throws on a missing object, after
  the emits of the earlier iterations. The value of the emit is not used.
\<close>

fun forEach_users :: "sid \<Rightarrow> messageData \<Rightarrow> user option list \<Rightarrow> server \<Rightarrow> outcome" where
  "forEach_users c messageData [] s = Inr s"
| "forEach_users c messageData (user # rest) s =
     (case user of
        None \<Rightarrow> Inl (TypeError, s)
      | Some u \<Rightarrow>
          (case sender messageData of
             None \<Rightarrow> Inl (TypeError, s)
           | Some sndr \<Rightarrow>
               forEach_users c messageData rest
                 (if user_id u \<noteq> user_id sndr
                  then snd (socket_to_emit c (user_id u)
                              (Packet ''message received'' (Some messageData)) s)
                  else s)))"

text \<open>\<^verbatim>\<open>socket.on('new message', (messageData) => { const chat = messageData.chat; chat.users.forEach(...) })\<close>\<close>

definition on_new_message :: "sid \<Rightarrow> messageData option \<Rightarrow> server \<Rightarrow> outcome" where
  "on_new_message c messageData s =
     (case messageData of
        None \<Rightarrow> Inl (TypeError, s)
      | Some m \<Rightarrow>
          (case chat m of
             None \<Rightarrow> Inl (TypeError, s)
           | Some ch \<Rightarrow>
               (case users ch of
                  NotArray \<Rightarrow> Inl (TypeError, s)
                | UserArray us \<Rightarrow> forEach_users c m us s)))"

text \<open>\<^verbatim>\<open>socket.on('disconnect', () => { console.log('User disconnected:', socket.id); })\<close>\<close>

definition on_disconnect :: "sid \<Rightarrow> server \<Rightarrow> server" where
  "on_disconnect c s = console_log (''User disconnected: '' @ c) s"

section \<open>What the transport delivers to the server\<close>

text \<open>
  The events a client can send: the three the server listens to, each with the argument
  its listener reads, and \<open>Unhandled n r\<close> for an event of any other name \<open>n\<close> with a
  room id as argument (the client emits \<^verbatim>\<open>"typing"\<close> and \<^verbatim>\<open>"stop typing"\<close> with
  a chat id; the connection block registers no listener for them, nor for any kind of
  leave).
\<close>

datatype client_event =
    Setup "user option"
  | JoinChat room
  | NewMessage "messageData option"
  | Unhandled string room

datatype inbound = Connection | FromClient client_event | Disconnect

text \<open>
  One step of the server for socket id \<open>c\<close>. A new connection joins the room named by
  its own id before the connection handler runs. The listeners exist only on the socket
  objects created there, so a client event for an id that is not live reaches no handler.
  On close, Socket.io empties the socket's rooms and then runs the
  \<^verbatim>\<open>'disconnect'\<close> listener; a socket that is not live is not closed again.
\<close>

fun server_step :: "sid \<Rightarrow> inbound \<Rightarrow> server \<Rightarrow> outcome" where
  "server_step c Connection s = Inr (on_connection c (socket_join c c s))"
| "server_step c (FromClient e) s =
     (if \<not> connected s c then Inr s
      else case e of
          Setup userData \<Rightarrow> on_setup c userData s
        | JoinChat roomId \<Rightarrow> Inr (on_join_chat c roomId s)
        | NewMessage messageData \<Rightarrow> on_new_message c messageData s
        | Unhandled n r \<Rightarrow> Inr s)"
| "server_step c Disconnect s =
     (if \<not> connected s c then Inr s else Inr (on_disconnect c (delAll c s)))"

text \<open>A run of the server from a state; a throwing handler ends it.\<close>

fun run :: "(sid \<times> inbound) list \<Rightarrow> server \<Rightarrow> outcome" where
  "run [] s = Inr s"
| "run ((c, e) # es) s =
     (case server_step c e s of Inl thrown \<Rightarrow> Inl thrown | Inr s' \<Rightarrow> run es s')"


section \<open>The client: the socket listeners of SingleChat.js\<close>

text \<open>
  The component keeps the messages of the open conversation; \<open>selectedChatCompare\<close> is
  the module variable holding the chat that is open. The file holds both sides of an
  unresolved merge, \<^verbatim>\<open>HEAD\<close> and \<^verbatim>\<open>Coding11-12\<close>. On either side the listener for
  chat messages is registered inside an effect that runs again on later renders and
  never removes what it registered; \<open>listeners\<close> counts the registrations so far.
\<close>

record client =
  messages :: "messageData list"
  socketConnected :: bool
  IsTyping :: bool
  selectedChatCompare :: "chat option"
  listeners :: nat

text \<open>
  \<^verbatim>\<open>HEAD\<close>: \<^verbatim>\<open>socket.on("message recieved", (newMessageRecieved) => {
  if (!selectedChatCompare || selectedChatCompare._id !== newMessageRecieved.chat._id) { }
  else { setMessages([...messages, newMessageRecieved]); } })\<close>
\<close>

definition on_message_recieved :: "messageData option \<Rightarrow> client \<Rightarrow> error + client" where
  "on_message_recieved newMessageRecieved cl =
     (case selectedChatCompare cl of
        None \<Rightarrow> Inr cl
      | Some sel \<Rightarrow>
          (case newMessageRecieved of
             None \<Rightarrow> Inl TypeError
           | Some m \<Rightarrow>
               (case chat m of
                  None \<Rightarrow> Inl TypeError
                | Some ch \<Rightarrow>
                    if chat_id sel \<noteq> chat_id ch then Inr cl
                    else Inr (cl\<lparr>messages := messages cl @ [m]\<rparr>))))"

text \<open>
  \<^verbatim>\<open>Coding11-12\<close>: \<^verbatim>\<open>socket.on("new message", (newMessageReceived) => {
  if (!selectedChatCompare || selectedChatCompare._id !== newMessageReceived.chat._id) { }
  else { setMessages(prevMessages => [...prevMessages, newMessageReceived]); } })\<close>
\<close>

definition on_new_message_client :: "messageData option \<Rightarrow> client \<Rightarrow> error + client" where
  "on_new_message_client newMessageReceived cl =
     (case selectedChatCompare cl of
        None \<Rightarrow> Inr cl
      | Some sel \<Rightarrow>
          (case newMessageReceived of
             None \<Rightarrow> Inl TypeError
           | Some m \<Rightarrow>
               (case chat m of
                  None \<Rightarrow> Inl TypeError
                | Some ch \<Rightarrow>
                    if chat_id sel \<noteq> chat_id ch then Inr cl
                    else Inr (cl\<lparr>messages := messages cl @ [m]\<rparr>))))"

text \<open>The registered copies of a listener run one after the other; a throw ends the sequence.\<close>

fun run_listeners :: "nat \<Rightarrow> (client \<Rightarrow> error + client) \<Rightarrow> client \<Rightarrow> error + client" where
  "run_listeners 0 f cl = Inr cl"
| "run_listeners (Suc k) f cl =
     (case f cl of Inl err \<Rightarrow> Inl err | Inr cl' \<Rightarrow> run_listeners k f cl')"

text \<open>
  A packet arriving at the client runs the listeners registered under its name, and
  nothing when there is none. \<^verbatim>\<open>HEAD\<close> listens to \<^verbatim>\<open>"connected"\<close>,
  \<^verbatim>\<open>"typing"\<close>, \<^verbatim>\<open>"stop typing"\<close> (registered once, by an effect with an empty
  dependency list) and \<^verbatim>\<open>"message recieved"\<close>. The copies of the last listener all
  pass the array \<^verbatim>\<open>[...messages, newMessageRecieved]\<close> of their own render to
  \<^verbatim>\<open>setMessages\<close>; the last call decides, and it is the one of the latest render, so
  together they append once.
\<close>

definition SingleChat_HEAD :: "packet \<Rightarrow> client \<Rightarrow> error + client" where
  "SingleChat_HEAD p cl =
     (if ev p = ''connected'' then Inr (cl\<lparr>socketConnected := True\<rparr>)
      else if ev p = ''typing'' then Inr (cl\<lparr>IsTyping := True\<rparr>)
      else if ev p = ''stop typing'' then Inr (cl\<lparr>IsTyping := False\<rparr>)
      else if ev p = ''message recieved''
        then (if listeners cl = 0 then Inr cl else on_message_recieved (arg p) cl)
      else Inr cl)"

text \<open>
  \<^verbatim>\<open>Coding11-12\<close> listens to \<^verbatim>\<open>"connected"\<close> and \<^verbatim>\<open>"new message"\<close> (its other
  listeners are commented out). Each copy of the last listener passes an updating
  function to \<^verbatim>\<open>setMessages\<close>, so each copy appends.
\<close>

definition SingleChat_Coding11_12 :: "packet \<Rightarrow> client \<Rightarrow> error + client" where
  "SingleChat_Coding11_12 p cl =
     (if ev p = ''connected'' then Inr (cl\<lparr>socketConnected := True\<rparr>)
      else if ev p = ''new message''
        then run_listeners (listeners cl) (on_new_message_client (arg p)) cl
      else Inr cl)"

section \<open>Notions used to state the properties\<close>

text \<open>The packet the \<^verbatim>\<open>'new message'\<close> handler emits for a message.\<close>

definition message_packet :: "messageData \<Rightarrow> packet" where
  "message_packet m = Packet ''message received'' (Some m)"

text \<open>
  The rooms the loop emits to, in order, when the array holds the user objects \<open>us\<close>:
  the ids of the listed users other than the sender's.
\<close>

definition target_rooms :: "user \<Rightarrow> user list \<Rightarrow> room list" where
  "target_rooms sndr us = map user_id (filter (\<lambda>u. user_id u \<noteq> user_id sndr) us)"

text \<open>
  How many packets socket \<open>d\<close> gets when socket \<open>a\<close> emits to the rooms \<open>rs\<close> one after
  the other: one for each listed room it is in, none when it is in the room named by
  \<open>a\<close>'s id or is not live.
\<close>

definition copies :: "server \<Rightarrow> sid \<Rightarrow> room list \<Rightarrow> sid \<Rightarrow> nat" where
  "copies s a rs d =
     (if d \<notin> rooms s a \<and> connected s d then length (filter (\<lambda>r. d \<in> rooms s r) rs) else 0)"

text \<open>
  The two indexes agree: the members of a room are the live sockets whose own set holds
  the room. And every live socket is in the room named by its id.
\<close>

definition registry_consistent :: "server \<Rightarrow> bool" where
  "registry_consistent s = (\<forall>r. membersOf r s = {c. connected s c \<and> r \<in> joinedRooms c s})"

definition own_room :: "server \<Rightarrow> bool" where
  "own_room s = (\<forall>c. connected s c \<longrightarrow> c \<in> membersOf c s)"

section \<open>Concrete users, messages and runs\<close>

definition user_A :: user where "user_A = \<lparr>user_id = ''uA'', user_name = ''Asha''\<rparr>"
definition user_B :: user where "user_B = \<lparr>user_id = ''uB'', user_name = ''Bilal''\<rparr>"
definition user_C :: user where "user_C = \<lparr>user_id = ''uC'', user_name = ''Chen''\<rparr>"

definition chat_R :: chat where
  "chat_R = \<lparr>chat_id = ''R'', users = UserArray [Some user_A, Some user_B, Some user_C]\<rparr>"

definition msg_hi :: messageData where
  "msg_hi = \<lparr>sender = Some user_A, chat = Some chat_R, content = ''hi''\<rparr>"

definition msg_bye :: messageData where
  "msg_bye = \<lparr>sender = Some user_A, chat = Some chat_R, content = ''bye''\<rparr>"

text \<open>Socket \<open>A\<close> alone: set up as user A, and joined to the rooms named after B and C.\<close>

definition lone_sender :: "(sid \<times> inbound) list" where
  "lone_sender =
     [(''A'', Connection), (''A'', FromClient (Setup (Some user_A))),
      (''A'', FromClient (JoinChat ''uB'')), (''A'', FromClient (JoinChat ''uC''))]"

text \<open>Sockets \<open>A\<close>, \<open>B\<close>, \<open>C\<close>, each set up as its user and joined to the chat room \<open>R\<close>.\<close>

definition three_set_up :: "(sid \<times> inbound) list" where
  "three_set_up =
     [(''A'', Connection), (''A'', FromClient (Setup (Some user_A))), (''A'', FromClient (JoinChat ''R'')),
      (''B'', Connection), (''B'', FromClient (Setup (Some user_B))), (''B'', FromClient (JoinChat ''R'')),
      (''C'', Connection), (''C'', FromClient (Setup (Some user_C))), (''C'', FromClient (JoinChat ''R''))]"

text \<open>The same three sockets joined to \<open>R\<close> without \<^verbatim>\<open>'setup'\<close>.\<close>

definition three_joined_only :: "(sid \<times> inbound) list" where
  "three_joined_only =
     [(''A'', Connection), (''A'', FromClient (JoinChat ''R'')),
      (''B'', Connection), (''B'', FromClient (JoinChat ''R'')),
      (''C'', Connection), (''C'', FromClient (JoinChat ''R''))]"

text \<open>\<open>A\<close> has only connected; \<open>B\<close> is set up as user B.\<close>

definition bare_sender :: "(sid \<times> inbound) list" where
  "bare_sender =
     [(''A'', Connection), (''B'', Connection), (''B'', FromClient (Setup (Some user_B)))]"

text \<open>\<open>A\<close> and \<open>B\<close> set up; then \<open>B\<close> disconnects.\<close>

definition b_gone :: "(sid \<times> inbound) list" where
  "b_gone =
     [(''A'', Connection), (''A'', FromClient (Setup (Some user_A))),
      (''B'', Connection), (''B'', FromClient (Setup (Some user_B))), (''B'', FromClient (JoinChat ''R'')),
      (''B'', Disconnect)]"

text \<open>\<open>A\<close> has connected and done nothing else.\<close>

definition a_connects :: "(sid \<times> inbound) list" where
  "a_connects = [(''A'', Connection)]"

text \<open>
  Events after a join of \<open>A\<close>: the typing events of the client, a setup, and \<open>B\<close>
  coming and going.
\<close>

definition later_events :: "(sid \<times> inbound) list" where
  "later_events =
     [(''A'', FromClient (Unhandled ''typing'' ''R'')),
      (''A'', FromClient (Unhandled ''stop typing'' ''R'')),
      (''A'', FromClient (Setup (Some user_A))),
      (''B'', Connection), (''B'', FromClient (JoinChat ''R'')), (''B'', Disconnect)]"

text \<open>\<open>A\<close> connects and disconnects.\<close>

definition a_came_and_went :: "(sid \<times> inbound) list" where
  "a_came_and_went = [(''A'', Connection), (''A'', Disconnect)]"

text \<open>\<open>A\<close> is set up as user A; \<open>B\<close> has only connected.\<close>

definition two_connected :: "(sid \<times> inbound) list" where
  "two_connected =
     [(''A'', Connection), (''A'', FromClient (Setup (Some user_A))), (''B'', Connection)]"

text \<open>
  \<open>A\<close> is set up as user A; \<open>B\<close> never runs \<^verbatim>\<open>'setup'\<close> and joins the room named
  \<open>uB\<close> with \<^verbatim>\<open>'join chat'\<close>.
\<close>

definition b_joins_user_room :: "(sid \<times> inbound) list" where
  "b_joins_user_room =
     [(''A'', Connection), (''A'', FromClient (Setup (Some user_A))),
      (''B'', Connection), (''B'', FromClient (JoinChat ''uB''))]"

text \<open>
  \<open>A\<close> and \<open>B\<close> are set up as their users; \<open>B\<close> then joins the room named by the
  socket id of \<open>A\<close>.
\<close>

definition b_joins_sender_id :: "(sid \<times> inbound) list" where
  "b_joins_sender_id =
     [(''A'', Connection), (''A'', FromClient (Setup (Some user_A))),
      (''B'', Connection), (''B'', FromClient (Setup (Some user_B))),
      (''B'', FromClient (JoinChat ''A''))]"

text \<open>A client on which the chat \<open>R\<close> is open, after two registrations of its listener.\<close>

definition client_viewing_R :: client where
  "client_viewing_R =
     \<lparr>messages = [], socketConnected = True, IsTyping = False,
      selectedChatCompare = Some chat_R, listeners = 2\<rparr>"

text \<open>The state a run ends in, by return or by throw.\<close>

definition state_after :: "(sid \<times> inbound) list \<Rightarrow> server" where
  "state_after es = (case run es io_init of Inl (err, s) \<Rightarrow> s | Inr s \<Rightarrow> s)"


section \<open>The fan-out loop\<close>

lemma socket_to_emit_fields [simp]:
  "rooms (snd (socket_to_emit c r p s)) = rooms s"
  "sids (snd (socket_to_emit c r p s)) = sids s"
  "console (snd (socket_to_emit c r p s)) = console s"
  by (simp_all add: socket_to_emit_def)

lemma copies_socket_to_emit [simp]:
  "copies (snd (socket_to_emit c r p s)) a rs d = copies s a rs d"
  by (simp add: copies_def connected_def)

lemma copies_Nil [simp]: "copies s a [] d = 0"
  by (simp add: copies_def)

lemma forEach_users_outbox:
  "sender m = Some sndr \<Longrightarrow>
   forEach_users a m (map Some us) s =
     Inr (s\<lparr>outbox := (\<lambda>d. outbox s d @ replicate (copies s a (target_rooms sndr us) d) (message_packet m))\<rparr>)"
proof (induction us arbitrary: s)
  case Nil
  then show ?case by (simp add: target_rooms_def)
next
  case (Cons u us)
  show ?case
  proof (cases "user_id u \<noteq> user_id sndr")
    case True
    let ?s1 = "snd (socket_to_emit a (user_id u) (message_packet m) s)"
    have step: "forEach_users a m (map Some (u # us)) s = forEach_users a m (map Some us) ?s1"
      using Cons.prems True by (simp add: message_packet_def)
    have h: "outbox ?s1 d @ replicate (copies s a (target_rooms sndr us) d) (message_packet m)
        = outbox s d @ replicate (copies s a (target_rooms sndr (u # us)) d) (message_packet m)" for d
      using True by (simp add: socket_to_emit_def copies_def target_rooms_def replicate_append_same)
    have "forEach_users a m (map Some us) ?s1 =
        Inr (?s1\<lparr>outbox := (\<lambda>d. outbox ?s1 d @ replicate (copies s a (target_rooms sndr us) d) (message_packet m))\<rparr>)"
      using Cons.IH [OF Cons.prems, of ?s1] by (simp only: copies_socket_to_emit)
    also have "\<dots> = Inr (?s1\<lparr>outbox := (\<lambda>d. outbox s d @ replicate (copies s a (target_rooms sndr (u # us)) d) (message_packet m))\<rparr>)"
      by (simp only: h)
    also have "\<dots> = Inr (s\<lparr>outbox := (\<lambda>d. outbox s d @ replicate (copies s a (target_rooms sndr (u # us)) d) (message_packet m))\<rparr>)"
      by (simp add: socket_to_emit_def)
    finally show ?thesis using step by simp
  next
    case False
    then show ?thesis
      using Cons.prems Cons.IH [OF Cons.prems, of s] by (simp add: target_rooms_def)
  qed
qed

text \<open>The loop returns only on an array of user objects, and needs the sender unless the array is empty.\<close>

lemma forEach_users_returns:
  "forEach_users a m us s = Inr s' \<Longrightarrow> \<exists>us'. us = map Some us' \<and> (us' = [] \<or> sender m \<noteq> None)"
proof (induction us arbitrary: s)
  case Nil
  then show ?case by simp
next
  case (Cons user rest)
  from Cons.prems obtain u sndr where u: "user = Some u" and sn: "sender m = Some sndr"
    by (auto split: option.splits)
  from Cons.prems u sn obtain s1 where "forEach_users a m rest s1 = Inr s'"
    by (auto split: if_splits)
  from Cons.IH [OF this] obtain us' where "rest = map Some us'" by blast
  with u have "user # rest = map Some (u # us')" by simp
  with sn show ?case by (intro exI [where x = "u # us'"]) simp
qed

lemma forEach_users_Inr:
  assumes "forEach_users a m us s = Inr s'"
  shows "\<exists>rs. s' = s\<lparr>outbox := (\<lambda>d. outbox s d @ replicate (copies s a rs d) (message_packet m))\<rparr>"
proof -
  from forEach_users_returns [OF assms] obtain us' where
    us: "us = map Some us'" and ok: "us' = [] \<or> sender m \<noteq> None"
    by blast
  show ?thesis
  proof (cases "sender m")
    case None
    with ok us assms have "s' = s\<lparr>outbox := (\<lambda>d. outbox s d @ replicate (copies s a [] d) (message_packet m))\<rparr>"
      by simp
    then show ?thesis by blast
  next
    case (Some sndr)
    from assms forEach_users_outbox [OF Some, of a us' s] us show ?thesis by auto
  qed
qed

lemma on_new_message_Inr:
  assumes "on_new_message a md s = Inr s'"
  shows "\<exists>m rs. md = Some m \<and>
           s' = s\<lparr>outbox := (\<lambda>d. outbox s d @ replicate (copies s a rs d) (message_packet m))\<rparr>"
proof -
  from assms obtain m us where md: "md = Some m"
    and fe: "forEach_users a m us s = Inr s'"
    by (auto simp: on_new_message_def split: option.splits users_field.splits)
  from forEach_users_Inr [OF fe] md show ?thesis by blast
qed

lemma on_new_message_registry:
  "on_new_message a md s = Inr s' \<Longrightarrow> rooms s' = rooms s \<and> sids s' = sids s \<and> console s' = console s"
  by (drule on_new_message_Inr) auto

lemma on_new_message_exact:
  assumes "chat m = Some ch" and "users ch = UserArray (map Some us)" and "sender m = Some sndr"
  shows "on_new_message a (Some m) s =
     Inr (s\<lparr>outbox := (\<lambda>d. outbox s d @ replicate (copies s a (target_rooms sndr us) d) (message_packet m))\<rparr>)"
  using assms(1,2) forEach_users_outbox [OF assms(3), of a us s] by (simp add: on_new_message_def)

lemma new_message_step_Inr:
  assumes "server_step a (FromClient (NewMessage md)) s = Inr s'"
  shows "\<exists>m rs. s' = s\<lparr>outbox := (\<lambda>d. outbox s d @ replicate (copies s a rs d) (message_packet m))\<rparr>"
proof (cases "connected s a")
  case False
  with assms have "s' = s" by simp
  then show ?thesis by (intro exI [where x = "[]"] exI) simp
next
  case True
  with assms have "on_new_message a md s = Inr s'" by simp
  from on_new_message_Inr [OF this] show ?thesis by blast
qed

section \<open>The two membership indexes\<close>

lemma registry_consistent_cong:
  "rooms s' = rooms s \<Longrightarrow> sids s' = sids s \<Longrightarrow> registry_consistent s' = registry_consistent s"
  by (simp add: registry_consistent_def membersOf_def connected_def joinedRooms_def)

lemma own_room_cong:
  "rooms s' = rooms s \<Longrightarrow> sids s' = sids s \<Longrightarrow> own_room s' = own_room s"
  by (simp add: own_room_def membersOf_def connected_def)

lemma registry_consistent_frame [simp]:
  "registry_consistent (console_log l s) = registry_consistent s"
  "registry_consistent (snd (socket_emit c p s)) = registry_consistent s"
  by (simp_all add: registry_consistent_def membersOf_def connected_def joinedRooms_def
      console_log_def socket_emit_def)

lemma own_room_frame [simp]:
  "own_room (console_log l s) = own_room s"
  "own_room (snd (socket_emit c p s)) = own_room s"
  by (simp_all add: own_room_def membersOf_def connected_def console_log_def socket_emit_def)

lemma registry_consistent_iff:
  "registry_consistent s \<longleftrightarrow> (\<forall>r c. c \<in> rooms s r \<longleftrightarrow> (\<exists>R. sids s c = Some R \<and> r \<in> R))"
  unfolding registry_consistent_def membersOf_def connected_def joinedRooms_def
  by (auto split: option.splits)

lemma registry_consistent_join:
  "registry_consistent s \<Longrightarrow> registry_consistent (socket_join c r s)"
  unfolding registry_consistent_iff
  by (auto simp: socket_join_def joinedRooms_def split: option.splits)

lemma own_room_join:
  "own_room s \<Longrightarrow> connected s c \<or> r = c \<Longrightarrow> own_room (socket_join c r s)"
  unfolding own_room_def membersOf_def connected_def socket_join_def
  by auto

lemma registry_consistent_delAll:
  "registry_consistent s \<Longrightarrow> registry_consistent (delAll c s)"
  unfolding registry_consistent_iff
  by (auto simp: delAll_def split: option.splits)

lemma own_room_delAll:
  "own_room s \<Longrightarrow> own_room (delAll c s)"
  unfolding own_room_def membersOf_def connected_def delAll_def
  by (auto split: option.splits)

lemma delAll_gone:
  "registry_consistent s \<Longrightarrow> c \<notin> membersOf r (delAll c s) \<and> \<not> connected (delAll c s) c"
  unfolding registry_consistent_iff membersOf_def connected_def
  by (auto simp: delAll_def split: option.splits)

lemma on_setup_Inr:
  "on_setup c userData s = Inr s' \<Longrightarrow>
   \<exists>u. userData = Some u \<and> s' = snd (socket_emit c (Packet ''connected'' None) (socket_join c (user_id u) s))"
  by (cases userData) (simp_all add: on_setup_def)

lemma server_step_consistent:
  assumes "server_step c e s = Inr s'" and "registry_consistent s"
  shows "registry_consistent s'"
proof (cases e)
  case Connection
  have "registry_consistent (on_connection c (socket_join c c s))"
    using registry_consistent_join [OF assms(2), of c c]
    by (simp add: on_connection_def)
  with assms(1) Connection show ?thesis by simp
next
  case (FromClient ce)
  show ?thesis
  proof (cases "connected s c")
    case False
    with assms FromClient show ?thesis by simp
  next
    case True
    show ?thesis
    proof (cases ce)
      case (Setup userData)
      with assms(1) FromClient True have "on_setup c userData s = Inr s'" by simp
      from on_setup_Inr [OF this] obtain u :: user where
        s': "s' = snd (socket_emit c (Packet ''connected'' None) (socket_join c (user_id u) s))"
        by blast
      show ?thesis unfolding s'
        using registry_consistent_join [OF assms(2), of c "user_id u"]
        by simp
    next
      case (JoinChat roomId)
      with assms(1) FromClient True have s': "s' = on_join_chat c roomId s" by simp
      show ?thesis unfolding s'
        using registry_consistent_join [OF assms(2), of c roomId]
        by (simp add: on_join_chat_def)
    next
      case (NewMessage m)
      with assms(1) FromClient True have "on_new_message c m s = Inr s'" by simp
      from on_new_message_registry [OF this] assms(2) show ?thesis
        using registry_consistent_cong [of s' s] by simp
    next
      case (Unhandled n r)
      with assms FromClient True show ?thesis by simp
    qed
  qed
next
  case Disconnect
  show ?thesis
  proof (cases "connected s c")
    case False
    with assms Disconnect show ?thesis by simp
  next
    case True
    with assms(1) Disconnect have s': "s' = on_disconnect c (delAll c s)" by simp
    show ?thesis unfolding s'
      using registry_consistent_delAll [OF assms(2), of c]
      by (simp add: on_disconnect_def)
  qed
qed

lemma server_step_own_room:
  assumes "server_step c e s = Inr s'" and "own_room s"
  shows "own_room s'"
proof (cases e)
  case Connection
  have "own_room (on_connection c (socket_join c c s))"
    using own_room_join [OF assms(2), of c c]
    by (simp add: on_connection_def)
  with assms(1) Connection show ?thesis by simp
next
  case (FromClient ce)
  show ?thesis
  proof (cases "connected s c")
    case False
    with assms FromClient show ?thesis by simp
  next
    case True
    show ?thesis
    proof (cases ce)
      case (Setup userData)
      with assms(1) FromClient True have "on_setup c userData s = Inr s'" by simp
      from on_setup_Inr [OF this] obtain u :: user where
        s': "s' = snd (socket_emit c (Packet ''connected'' None) (socket_join c (user_id u) s))"
        by blast
      show ?thesis unfolding s'
        using own_room_join [OF assms(2), of c "user_id u"] True
        by simp
    next
      case (JoinChat roomId)
      with assms(1) FromClient True have s': "s' = on_join_chat c roomId s" by simp
      show ?thesis unfolding s'
        using own_room_join [OF assms(2), of c roomId] True
        by (simp add: on_join_chat_def)
    next
      case (NewMessage m)
      with assms(1) FromClient True have "on_new_message c m s = Inr s'" by simp
      from on_new_message_registry [OF this] assms(2) show ?thesis
        using own_room_cong [of s' s] by simp
    next
      case (Unhandled n r)
      with assms FromClient True show ?thesis by simp
    qed
  qed
next
  case Disconnect
  show ?thesis
  proof (cases "connected s c")
    case False
    with assms Disconnect show ?thesis by simp
  next
    case True
    with assms(1) Disconnect have s': "s' = on_disconnect c (delAll c s)" by simp
    show ?thesis unfolding s'
      using own_room_delAll [OF assms(2), of c]
      by (simp add: on_disconnect_def)
  qed
qed

lemma run_invariants:
  "run es s = Inr s' \<Longrightarrow> registry_consistent s \<and> own_room s \<Longrightarrow> registry_consistent s' \<and> own_room s'"
proof (induction es arbitrary: s)
  case Nil
  then show ?case by simp
next
  case (Cons x es)
  obtain c e where x: "x = (c, e)" by (cases x)
  from Cons.prems(1) x obtain s1 where
    s1: "server_step c e s = Inr s1" and rest: "run es s1 = Inr s'"
    by (auto split: sum.splits)
  from server_step_consistent [OF s1] server_step_own_room [OF s1] Cons.prems(2)
  have "registry_consistent s1 \<and> own_room s1" by simp
  from Cons.IH [OF rest this] show ?case .
qed

lemma io_init_invariants: "registry_consistent io_init \<and> own_room io_init"
  by (simp add: registry_consistent_def own_room_def io_init_def membersOf_def connected_def)

section \<open>Evaluating the concrete runs\<close>

lemmas demo_defs =
  lone_sender_def three_set_up_def three_joined_only_def bare_sender_def b_gone_def
  a_connects_def later_events_def a_came_and_went_def two_connected_def
  b_joins_user_room_def b_joins_sender_id_def
  user_A_def user_B_def user_C_def chat_R_def msg_hi_def msg_bye_def
  state_after_def io_init_def on_connection_def on_setup_def on_join_chat_def
  on_new_message_def on_disconnect_def socket_join_def socket_emit_def socket_to_emit_def
  delAll_def console_log_def connected_def membersOf_def joinedRooms_def message_packet_def

section \<open>The effect of one message\<close>

lemma new_message_step_exact:
  assumes "connected s a"
    and "chat m = Some ch" and "users ch = UserArray (map Some us)" and "sender m = Some sndr"
  shows "server_step a (FromClient (NewMessage (Some m))) s =
     Inr (s\<lparr>outbox := (\<lambda>d. outbox s d @ replicate (copies s a (target_rooms sndr us) d) (message_packet m))\<rparr>)"
  using assms(1) on_new_message_exact [OF assms(2,3,4), of a s] by simp

lemma member_is_connected:
  "registry_consistent s \<Longrightarrow> d \<in> membersOf r s \<Longrightarrow> connected s d"
  by (auto simp: registry_consistent_def)

lemma copies_positive_iff:
  "0 < copies s a rs d \<longleftrightarrow> d \<notin> rooms s a \<and> connected s d \<and> (\<exists>r\<in>set rs. d \<in> rooms s r)"
  by (auto simp: copies_def filter_empty_conv)

lemma in_target_rooms:
  "(\<exists>r\<in>set (target_rooms sndr us). P r) \<longleftrightarrow> (\<exists>v\<in>set us. user_id v \<noteq> user_id sndr \<and> P (user_id v))"
  by (auto simp: target_rooms_def)

lemma append_replicate_differs:
  "xs @ replicate n x \<noteq> xs \<longleftrightarrow> 0 < n"
  by (cases n) simp_all

section \<open>The sender's own connection\<close>

text \<open>
  C1. In every state the server can reach, the \<^verbatim>\<open>'new message'\<close> handler run for
  socket \<open>c\<close> leaves the outbound queue of \<open>c\<close> itself as it was, whatever the message
  and whatever rooms \<open>c\<close> is in: no \<^verbatim>\<open>'message received'\<close> packet is placed on the
  sender's own connection, also when the sender is the only member of a target room.
\<close>

theorem sender_never_receives_own_message:
  assumes "run es io_init = Inr s"
    and "server_step c (FromClient (NewMessage m)) s = Inr s'"
  shows "outbox s' c = outbox s c"
proof -
  from run_invariants [OF assms(1) io_init_invariants] have own: "own_room s" by simp
  from new_message_step_Inr [OF assms(2)] obtain m' rs where
    s': "s' = s\<lparr>outbox := (\<lambda>d. outbox s d @ replicate (copies s c rs d) (message_packet m'))\<rparr>"
    by blast
  have "copies s c rs c = 0"
  proof (cases "connected s c")
    case True
    with own have "c \<in> rooms s c" by (simp add: own_room_def membersOf_def)
    then show ?thesis by (simp add: copies_def)
  next
    case False
    then show ?thesis by (simp add: copies_def)
  qed
  then show ?thesis by (subst s') simp
qed

text \<open>
  The theorem at the run \<open>lone_sender\<close>: socket \<open>A\<close> is the only member of the target
  rooms \<open>uB\<close> and \<open>uC\<close> of the message, and its queue is unchanged by its own message.
\<close>

theorem sender_never_receives_own_message_witness:
  "run lone_sender io_init = Inr (state_after lone_sender) \<and>
   membersOf ''uB'' (state_after lone_sender) = {''A''} \<and>
   server_step ''A'' (FromClient (NewMessage (Some msg_hi))) (state_after lone_sender)
     = Inr (projr (server_step ''A'' (FromClient (NewMessage (Some msg_hi))) (state_after lone_sender))) \<and>
   outbox (projr (server_step ''A'' (FromClient (NewMessage (Some msg_hi))) (state_after lone_sender))) ''A''
     = outbox (state_after lone_sender) ''A''"
proof -
  have r: "run lone_sender io_init = Inr (state_after lone_sender)"
    by (simp add: demo_defs)
  have m: "membersOf ''uB'' (state_after lone_sender) = {''A''}"
    by (simp add: demo_defs)
  have st: "server_step ''A'' (FromClient (NewMessage (Some msg_hi))) (state_after lone_sender)
      = Inr (projr (server_step ''A'' (FromClient (NewMessage (Some msg_hi))) (state_after lone_sender)))"
    by (simp add: demo_defs)
  from sender_never_receives_own_message [OF r st] r m st show ?thesis by simp
qed

section \<open>Event names on the two sides\<close>

lemma new_packets_are_message_packets:
  assumes "server_step c (FromClient (NewMessage m)) s = Inr s'"
    and "p \<in> set (drop (length (outbox s d)) (outbox s' d))"
  shows "\<exists>m'. p = message_packet m'"
proof -
  from new_message_step_Inr [OF assms(1)] obtain m' rs where
    "s' = s\<lparr>outbox := (\<lambda>d. outbox s d @ replicate (copies s c rs d) (message_packet m'))\<rparr>"
    by blast
  then have "outbox s' d = outbox s d @ replicate (copies s c rs d) (message_packet m')"
    by simp
  with assms(2) show ?thesis by auto
qed

text \<open>
  C2. Every packet the server's \<^verbatim>\<open>'new message'\<close> handler adds to a queue is named
  \<^verbatim>\<open>'message received'\<close>. The client listens for incoming chat messages under
  \<^verbatim>\<open>"message recieved"\<close> (\<^verbatim>\<open>HEAD\<close>) or \<^verbatim>\<open>"new message"\<close>
  (\<^verbatim>\<open>Coding11-12\<close>); the names differ, so on either side of the merge the packet runs
  no listener and the client is left as it was.
\<close>

theorem server_message_event_reaches_no_listener:
  assumes "server_step c (FromClient (NewMessage m)) s = Inr s'"
    and "p \<in> set (drop (length (outbox s d)) (outbox s' d))"
  shows "ev p = ''message received'' \<and> ev p \<noteq> ''message recieved'' \<and> ev p \<noteq> ''new message'' \<and>
         SingleChat_HEAD p cl = Inr cl \<and> SingleChat_Coding11_12 p cl = Inr cl"
proof -
  from new_packets_are_message_packets [OF assms] have "ev p = ''message received''"
    by (auto simp: message_packet_def)
  then show ?thesis
    by (simp add: SingleChat_HEAD_def SingleChat_Coding11_12_def)
qed

text \<open>
  The theorem at the run \<open>three_set_up\<close>: the message of \<open>A\<close> is written to the queue of
  \<open>B\<close>, and a client that has the chat open ignores it on both sides of the merge. The
  same message arriving under the name a side listens to would be appended: once by
  the listeners of \<^verbatim>\<open>HEAD\<close>, once per registered listener by those of
  \<^verbatim>\<open>Coding11-12\<close>.
\<close>

theorem server_message_event_reaches_no_listener_witness:
  "server_step ''A'' (FromClient (NewMessage (Some msg_hi))) (state_after three_set_up)
     = Inr (projr (server_step ''A'' (FromClient (NewMessage (Some msg_hi))) (state_after three_set_up))) \<and>
   message_packet msg_hi \<in> set (drop (length (outbox (state_after three_set_up) ''B''))
     (outbox (projr (server_step ''A'' (FromClient (NewMessage (Some msg_hi))) (state_after three_set_up))) ''B'')) \<and>
   SingleChat_HEAD (message_packet msg_hi) client_viewing_R = Inr client_viewing_R \<and>
   SingleChat_Coding11_12 (message_packet msg_hi) client_viewing_R = Inr client_viewing_R \<and>
   SingleChat_HEAD (Packet ''message recieved'' (Some msg_hi)) client_viewing_R
     = Inr (client_viewing_R\<lparr>messages := [msg_hi]\<rparr>) \<and>
   SingleChat_Coding11_12 (Packet ''new message'' (Some msg_hi)) client_viewing_R
     = Inr (client_viewing_R\<lparr>messages := [msg_hi, msg_hi]\<rparr>)"
proof -
  have st: "server_step ''A'' (FromClient (NewMessage (Some msg_hi))) (state_after three_set_up)
      = Inr (projr (server_step ''A'' (FromClient (NewMessage (Some msg_hi))) (state_after three_set_up)))"
    by (simp add: demo_defs)
  have mem: "message_packet msg_hi \<in> set (drop (length (outbox (state_after three_set_up) ''B''))
     (outbox (projr (server_step ''A'' (FromClient (NewMessage (Some msg_hi))) (state_after three_set_up))) ''B''))"
    by (simp add: demo_defs)
  have other: "SingleChat_HEAD (Packet ''message recieved'' (Some msg_hi)) client_viewing_R
       = Inr (client_viewing_R\<lparr>messages := [msg_hi]\<rparr>) \<and>
     SingleChat_Coding11_12 (Packet ''new message'' (Some msg_hi)) client_viewing_R
       = Inr (client_viewing_R\<lparr>messages := [msg_hi, msg_hi]\<rparr>)"
    by (simp add: SingleChat_HEAD_def SingleChat_Coding11_12_def on_message_recieved_def
        on_new_message_client_def client_viewing_R_def msg_hi_def chat_R_def numeral_2_eq_2)
  from server_message_event_reaches_no_listener [OF st mem, of client_viewing_R] st mem other
  show ?thesis by simp
qed

section \<open>Disconnection\<close>

text \<open>
  C4. In every state the server reaches, the members of each room are exactly the live
  sockets whose own room set holds the room. When socket \<open>c\<close> disconnects this still
  holds, \<open>c\<close> is no longer live and no room has \<open>c\<close> as a member.
\<close>

theorem disconnect_leaves_no_stale_member:
  assumes "run es io_init = Inr s"
    and "server_step c Disconnect s = Inr s'"
  shows "registry_consistent s \<and> registry_consistent s' \<and>
         c \<notin> membersOf r s' \<and> \<not> connected s' c"
proof -
  from run_invariants [OF assms(1) io_init_invariants] have inv: "registry_consistent s" by simp
  from server_step_consistent [OF assms(2) inv] have inv': "registry_consistent s'" .
  have "c \<notin> membersOf r s' \<and> \<not> connected s' c"
  proof (cases "connected s c")
    case False
    with assms(2) have "s' = s" by simp
    moreover from False inv have "c \<notin> membersOf r s"
      by (simp add: registry_consistent_def)
    ultimately show ?thesis using False by simp
  next
    case True
    with assms(2) have "s' = on_disconnect c (delAll c s)" by simp
    with delAll_gone [OF inv, of c r] show ?thesis
      by (simp add: on_disconnect_def console_log_def membersOf_def connected_def)
  qed
  with inv inv' show ?thesis by simp
qed

text \<open>
  The theorem at the run \<open>three_set_up\<close>: \<open>B\<close> is a member of \<open>R\<close> and of \<open>uB\<close>; after
  its disconnection it is in neither, and \<open>R\<close> keeps \<open>A\<close> and \<open>C\<close>.
\<close>

theorem disconnect_leaves_no_stale_member_witness:
  "run three_set_up io_init = Inr (state_after three_set_up) \<and>
   ''B'' \<in> membersOf ''R'' (state_after three_set_up) \<and>
   ''B'' \<in> membersOf ''uB'' (state_after three_set_up) \<and>
   ''B'' \<notin> membersOf ''R'' (projr (server_step ''B'' Disconnect (state_after three_set_up))) \<and>
   ''B'' \<notin> membersOf ''uB'' (projr (server_step ''B'' Disconnect (state_after three_set_up))) \<and>
   membersOf ''R'' (projr (server_step ''B'' Disconnect (state_after three_set_up))) = {''A'', ''C''} \<and>
   registry_consistent (projr (server_step ''B'' Disconnect (state_after three_set_up)))"
proof -
  let ?s = "state_after three_set_up"
  let ?s' = "projr (server_step ''B'' Disconnect ?s)"
  have r: "run three_set_up io_init = Inr ?s"
    by (simp add: demo_defs)
  have st: "server_step ''B'' Disconnect ?s = Inr ?s'"
    by (simp add: demo_defs)
  have before: "''B'' \<in> membersOf ''R'' ?s \<and> ''B'' \<in> membersOf ''uB'' ?s"
    by (simp add: demo_defs)
  have rest: "membersOf ''R'' ?s' = {''A'', ''C''}"
    by (auto simp add: demo_defs)
  from disconnect_leaves_no_stale_member [OF r st, of "''R''"]
    disconnect_leaves_no_stale_member [OF r st, of "''uB''"] r before rest
  show ?thesis by simp
qed

section \<open>Who receives a message\<close>

lemma filter_one_target:
  fixes us :: "user list"
  assumes "distinct (map user_id us)" and "u \<in> set us" and "Q u" and "P (user_id u)"
    and "\<forall>v\<in>set us. user_id v \<noteq> user_id u \<longrightarrow> \<not> P (user_id v)"
  shows "length (filter P (map user_id (filter Q us))) = 1"
  using assms
proof (induction us)
  case Nil
  then show ?case by simp
next
  case (Cons x xs)
  show ?case
  proof (cases "user_id x = user_id u")
    case True
    with Cons.prems(1) have others: "\<forall>v\<in>set xs. user_id v \<noteq> user_id u"
      by (auto simp: image_iff)
    with Cons.prems(5) have "\<forall>v\<in>set xs. \<not> P (user_id v)" by simp
    then have none: "filter P (map user_id (filter Q xs)) = []"
      by (auto simp: filter_empty_conv)
    from others Cons.prems(2) have "x = u" by auto
    with Cons.prems(3,4) none show ?thesis by simp
  next
    case False
    with Cons.prems(2) have in_xs: "u \<in> set xs" by auto
    from False Cons.prems(5) have skip: "\<not> P (user_id x)" by simp
    from Cons.prems(1) have d: "distinct (map user_id xs)" by simp
    from Cons.prems(5) have rest: "\<forall>v\<in>set xs. user_id v \<noteq> user_id u \<longrightarrow> \<not> P (user_id v)" by simp
    from Cons.IH [OF d in_xs Cons.prems(3,4) rest] skip show ?thesis by simp
  qed
qed

text \<open>
  C3, as the code has it. Let the server be in a reachable state, let live socket \<open>a\<close>
  send a message whose chat is present, whose \<^verbatim>\<open>chat.users\<close> is an array of user
  objects with pairwise different ids, and whose sender is present. Let \<open>u\<close> be a listed
  user other than the sender, and let socket \<open>b\<close> be in the room named by the id of \<open>u\<close>,
  in the room of no other listed user and not in the room named by the socket id of
  \<open>a\<close>. Then the handler, on its return, has appended exactly one
  \<^verbatim>\<open>'message received'\<close> packet to the queue of \<open>b\<close> and has left the queue of \<open>a\<close>
  unchanged.
\<close>

theorem each_listed_user_gets_one_copy:
  assumes "run es io_init = Inr s"
    and "connected s a"
    and "server_step a (FromClient (NewMessage (Some m))) s = Inr s'"
    and "chat m = Some ch" and "users ch = UserArray (map Some us)" and "sender m = Some sndr"
    and "distinct (map user_id us)"
    and "u \<in> set us" and "user_id u \<noteq> user_id sndr"
    and "b \<in> membersOf (user_id u) s"
    and "b \<notin> membersOf a s"
    and "\<forall>v\<in>set us. user_id v \<noteq> user_id u \<longrightarrow> b \<notin> membersOf (user_id v) s"
  shows "outbox s' b = outbox s b @ [message_packet m] \<and> outbox s' a = outbox s a"
proof -
  from run_invariants [OF assms(1) io_init_invariants]
  have inv: "registry_consistent s" and own: "own_room s" by simp_all
  from assms(3) new_message_step_exact [OF assms(2,4,5,6)]
  have s': "s' = s\<lparr>outbox := (\<lambda>d. outbox s d @ replicate (copies s a (target_rooms sndr us) d) (message_packet m))\<rparr>"
    by simp
  have live_b: "connected s b" using member_is_connected [OF inv assms(10)] .
  have "length (filter (\<lambda>r. b \<in> rooms s r) (map user_id (filter (\<lambda>v. user_id v \<noteq> user_id sndr) us))) = 1"
    using filter_one_target [OF assms(7,8), of "\<lambda>v. user_id v \<noteq> user_id sndr" "\<lambda>r. b \<in> rooms s r"]
      assms(9,10,12) by (simp add: membersOf_def)
  then have "copies s a (target_rooms sndr us) b = 1"
    using live_b assms(11) by (simp add: copies_def target_rooms_def membersOf_def)
  then have to_b: "outbox s' b = outbox s b @ [message_packet m]"
    by (subst s') simp
  from own assms(2) have "a \<in> rooms s a" by (simp add: own_room_def membersOf_def)
  then have "copies s a (target_rooms sndr us) a = 0" by (simp add: copies_def)
  then have "outbox s' a = outbox s a"
    by (subst s') simp
  with to_b show ?thesis by simp
qed

text \<open>
  The theorem at the run \<open>three_set_up\<close>, for \<open>B\<close> and for \<open>C\<close>: each gets the message of
  \<open>A\<close> once, after the \<^verbatim>\<open>'connected'\<close> packet of its setup.
\<close>

theorem each_listed_user_gets_one_copy_witness:
  "run three_set_up io_init = Inr (state_after three_set_up) \<and>
   outbox (projr (server_step ''A'' (FromClient (NewMessage (Some msg_hi))) (state_after three_set_up))) ''B''
     = [Packet ''connected'' None, message_packet msg_hi] \<and>
   outbox (projr (server_step ''A'' (FromClient (NewMessage (Some msg_hi))) (state_after three_set_up))) ''C''
     = [Packet ''connected'' None, message_packet msg_hi] \<and>
   outbox (projr (server_step ''A'' (FromClient (NewMessage (Some msg_hi))) (state_after three_set_up))) ''A''
     = [Packet ''connected'' None]"
proof -
  let ?s = "state_after three_set_up"
  let ?s' = "projr (server_step ''A'' (FromClient (NewMessage (Some msg_hi))) ?s)"
  have r: "run three_set_up io_init = Inr ?s" by (simp add: demo_defs)
  have live: "connected ?s ''A''" by (simp add: demo_defs)
  have st: "server_step ''A'' (FromClient (NewMessage (Some msg_hi))) ?s = Inr ?s'" by (simp add: demo_defs)
  have ch: "chat msg_hi = Some chat_R" by (simp add: msg_hi_def)
  have us: "users chat_R = UserArray (map Some [user_A, user_B, user_C])" by (simp add: chat_R_def)
  have sn: "sender msg_hi = Some user_A" by (simp add: msg_hi_def)
  have di: "distinct (map user_id [user_A, user_B, user_C])"
    by (simp add: user_A_def user_B_def user_C_def)
  have inB: "user_B \<in> set [user_A, user_B, user_C]" and inC: "user_C \<in> set [user_A, user_B, user_C]"
    by simp_all
  have neB: "user_id user_B \<noteq> user_id user_A" and neC: "user_id user_C \<noteq> user_id user_A"
    by (simp_all add: user_A_def user_B_def user_C_def)
  have mB: "''B'' \<in> membersOf (user_id user_B) ?s" and mC: "''C'' \<in> membersOf (user_id user_C) ?s"
    by (simp_all add: demo_defs)
  have xB: "''B'' \<notin> membersOf ''A'' ?s" and xC: "''C'' \<notin> membersOf ''A'' ?s"
    by (simp_all add: demo_defs)
  have oB: "\<forall>v\<in>set [user_A, user_B, user_C]. user_id v \<noteq> user_id user_B \<longrightarrow> ''B'' \<notin> membersOf (user_id v) ?s"
    by (simp add: demo_defs)
  have oC: "\<forall>v\<in>set [user_A, user_B, user_C]. user_id v \<noteq> user_id user_C \<longrightarrow> ''C'' \<notin> membersOf (user_id v) ?s"
    by (simp add: demo_defs)
  have q: "outbox ?s ''A'' = [Packet ''connected'' None] \<and> outbox ?s ''B'' = [Packet ''connected'' None]
      \<and> outbox ?s ''C'' = [Packet ''connected'' None]"
    by (simp add: demo_defs)
  from each_listed_user_gets_one_copy [OF r live st ch us sn di inB neB mB xB oB]
    each_listed_user_gets_one_copy [OF r live st ch us sn di inC neC mC xC oC] r q
  show ?thesis by simp
qed

text \<open>
  C3 as stated fails: \<open>A\<close>, \<open>B\<close> and \<open>C\<close> are all joined to the room \<open>R\<close> of the chat
  (run \<open>three_joined_only\<close>), \<open>A\<close> sends a message of that chat, and the queues of \<open>B\<close>
  and \<open>C\<close> stay empty.
\<close>

theorem room_members_without_setup_get_nothing:
  "run three_joined_only io_init = Inr (state_after three_joined_only) \<and>
   membersOf ''R'' (state_after three_joined_only) = {''A'', ''B'', ''C''} \<and>
   server_step ''A'' (FromClient (NewMessage (Some msg_hi))) (state_after three_joined_only)
     = Inr (projr (server_step ''A'' (FromClient (NewMessage (Some msg_hi))) (state_after three_joined_only))) \<and>
   outbox (projr (server_step ''A'' (FromClient (NewMessage (Some msg_hi))) (state_after three_joined_only))) ''B'' = [] \<and>
   outbox (projr (server_step ''A'' (FromClient (NewMessage (Some msg_hi))) (state_after three_joined_only))) ''C'' = []"
  by (auto simp add: demo_defs)

section \<open>Order of delivery\<close>

text \<open>
  C9, as the code has it. Let live socket \<open>a\<close> send two messages one after the other,
  each with its chat present, its \<^verbatim>\<open>chat.users\<close> an array of user objects and its
  sender present. Both are handled, and the queue of every socket \<open>d\<close> is extended by
  the copies of the first message followed by the copies of the second, the number of
  copies being the number of target rooms of that message \<open>d\<close> is in (none when \<open>d\<close> is
  not live or is in the room named by the socket id of \<open>a\<close>). A live socket outside
  that room which is in the room of a user listed in both messages and sender of
  neither gets both messages, the first before the second.
\<close>

theorem broadcasts_are_queued_in_order:
  assumes "connected s a"
    and "chat m1 = Some ch1" and "users ch1 = UserArray (map Some us1)" and "sender m1 = Some sndr1"
    and "chat m2 = Some ch2" and "users ch2 = UserArray (map Some us2)" and "sender m2 = Some sndr2"
  shows "\<exists>s1 s2.
           server_step a (FromClient (NewMessage (Some m1))) s = Inr s1 \<and>
           server_step a (FromClient (NewMessage (Some m2))) s1 = Inr s2 \<and>
           outbox s2 d =
             outbox s d @ replicate (copies s a (target_rooms sndr1 us1) d) (message_packet m1)
                        @ replicate (copies s a (target_rooms sndr2 us2) d) (message_packet m2) \<and>
           (connected s d \<and> d \<notin> membersOf a s \<and> d \<in> membersOf (user_id u) s \<and>
            u \<in> set us1 \<and> u \<in> set us2 \<and>
            user_id u \<noteq> user_id sndr1 \<and> user_id u \<noteq> user_id sndr2 \<longrightarrow>
              0 < copies s a (target_rooms sndr1 us1) d \<and>
              0 < copies s a (target_rooms sndr2 us2) d)"
proof -
  let ?s1 = "s\<lparr>outbox := (\<lambda>x. outbox s x @ replicate (copies s a (target_rooms sndr1 us1) x) (message_packet m1))\<rparr>"
  let ?s2 = "?s1\<lparr>outbox := (\<lambda>x. outbox ?s1 x @ replicate (copies ?s1 a (target_rooms sndr2 us2) x) (message_packet m2))\<rparr>"
  have 1: "server_step a (FromClient (NewMessage (Some m1))) s = Inr ?s1"
    using new_message_step_exact [OF assms(1,2,3,4)] .
  have live: "connected ?s1 a" using assms(1) by (simp add: connected_def)
  have 2: "server_step a (FromClient (NewMessage (Some m2))) ?s1 = Inr ?s2"
    using new_message_step_exact [OF live assms(5,6,7)] .
  have same: "copies ?s1 a rs x = copies s a rs x" for rs x
    by (simp add: copies_def connected_def)
  have q: "outbox ?s2 d =
      outbox s d @ replicate (copies s a (target_rooms sndr1 us1) d) (message_packet m1)
                 @ replicate (copies s a (target_rooms sndr2 us2) d) (message_packet m2)"
    by (simp add: same)
  have both: "connected s d \<and> d \<notin> membersOf a s \<and> d \<in> membersOf (user_id u) s \<and>
      u \<in> set us1 \<and> u \<in> set us2 \<and>
      user_id u \<noteq> user_id sndr1 \<and> user_id u \<noteq> user_id sndr2 \<longrightarrow>
        0 < copies s a (target_rooms sndr1 us1) d \<and> 0 < copies s a (target_rooms sndr2 us2) d"
    unfolding copies_positive_iff in_target_rooms by (auto simp: membersOf_def)
  from 1 2 q both show ?thesis by blast
qed

text \<open>
  The theorem at the run \<open>three_set_up\<close>: after \<open>hi\<close> and then \<open>bye\<close> from \<open>A\<close>, the
  queue of \<open>B\<close> holds \<open>hi\<close> before \<open>bye\<close>.
\<close>

theorem broadcasts_are_queued_in_order_witness:
  "connected (state_after three_set_up) ''A'' \<and>
   copies (state_after three_set_up) ''A'' (target_rooms user_A [user_A, user_B, user_C]) ''B'' = 1 \<and>
   outbox (projr (server_step ''A'' (FromClient (NewMessage (Some msg_bye)))
       (projr (server_step ''A'' (FromClient (NewMessage (Some msg_hi))) (state_after three_set_up))))) ''B''
     = [Packet ''connected'' None, message_packet msg_hi, message_packet msg_bye]"
proof -
  let ?s = "state_after three_set_up"
  have live: "connected ?s ''A''"
    by (simp add: demo_defs)
  have ch: "chat msg_hi = Some chat_R" and ch': "chat msg_bye = Some chat_R"
    by (simp_all add: msg_hi_def msg_bye_def)
  have us: "users chat_R = UserArray (map Some [user_A, user_B, user_C])" by (simp add: chat_R_def)
  have sn: "sender msg_hi = Some user_A" and sn': "sender msg_bye = Some user_A"
    by (simp_all add: msg_hi_def msg_bye_def)
  have q: "outbox ?s ''B'' = [Packet ''connected'' None]"
    by (simp add: demo_defs)
  have c: "copies ?s ''A'' (target_rooms user_A [user_A, user_B, user_C]) ''B'' = 1"
    by (simp add: copies_def target_rooms_def demo_defs)
  from broadcasts_are_queued_in_order [OF live ch us sn ch' us sn', of "''B''" user_B]
  obtain s1 s2 where
    "server_step ''A'' (FromClient (NewMessage (Some msg_hi))) ?s = Inr s1"
    "server_step ''A'' (FromClient (NewMessage (Some msg_bye))) s1 = Inr s2"
    "outbox s2 ''B'' = outbox ?s ''B''
       @ replicate (copies ?s ''A'' (target_rooms user_A [user_A, user_B, user_C]) ''B'') (message_packet msg_hi)
       @ replicate (copies ?s ''A'' (target_rooms user_A [user_A, user_B, user_C]) ''B'') (message_packet msg_bye)"
    by blast
  with live q c show ?thesis by simp
qed

text \<open>
  C9 as stated fails: in the run \<open>three_joined_only\<close> socket \<open>B\<close> is a member of the
  room \<open>R\<close> of the chat; \<open>A\<close> sends \<open>hi\<close> and then \<open>bye\<close> in that chat, both are handled,
  and the queue of \<open>B\<close> holds neither.
\<close>

theorem chat_room_member_holds_neither_message:
  "run three_joined_only io_init = Inr (state_after three_joined_only) \<and>
   ''B'' \<in> membersOf ''R'' (state_after three_joined_only) \<and>
   server_step ''A'' (FromClient (NewMessage (Some msg_hi))) (state_after three_joined_only)
     = Inr (projr (server_step ''A'' (FromClient (NewMessage (Some msg_hi))) (state_after three_joined_only))) \<and>
   server_step ''A'' (FromClient (NewMessage (Some msg_bye)))
       (projr (server_step ''A'' (FromClient (NewMessage (Some msg_hi))) (state_after three_joined_only)))
     = Inr (projr (server_step ''A'' (FromClient (NewMessage (Some msg_bye)))
       (projr (server_step ''A'' (FromClient (NewMessage (Some msg_hi))) (state_after three_joined_only))))) \<and>
   outbox (projr (server_step ''A'' (FromClient (NewMessage (Some msg_bye)))
       (projr (server_step ''A'' (FromClient (NewMessage (Some msg_hi))) (state_after three_joined_only))))) ''B''
     = []"
  by (simp add: demo_defs)

section \<open>Joining\<close>







section \<open>Errors of the handlers\<close>

text \<open>
  C6, as the code has it. \<^verbatim>\<open>'join chat'\<close> never fails. For an id that is not a live
  socket no listener exists and the state is unchanged; for a live socket the join is
  done and the socket is a member of the room.
\<close>

theorem join_chat_never_fails:
  "\<exists>s'. server_step c (FromClient (JoinChat r)) s = Inr s' \<and>
        (if connected s c then c \<in> membersOf r s' \<and> connected s' c else s' = s)"
  by (simp add: on_join_chat_def console_log_def socket_join_def membersOf_def connected_def)

text \<open>
  C6 as stated fails: \<open>A\<close> has been disconnected and \<open>ghost\<close> never connected; a
  \<^verbatim>\<open>'join chat'\<close> for either returns normally, with the state unchanged.
\<close>

theorem join_for_unknown_connection_is_no_error:
  "run a_came_and_went io_init = Inr (state_after a_came_and_went) \<and>
   \<not> connected (state_after a_came_and_went) ''A'' \<and>
   \<not> connected (state_after a_came_and_went) ''ghost'' \<and>
   server_step ''A'' (FromClient (JoinChat ''R'')) (state_after a_came_and_went)
     = Inr (state_after a_came_and_went) \<and>
   server_step ''ghost'' (FromClient (JoinChat ''R'')) (state_after a_came_and_went)
     = Inr (state_after a_came_and_went)"
  by (simp add: demo_defs)

text \<open>
  C7, as the code has it. Let \<open>a\<close> be any live socket, whether or not it has run
  \<^verbatim>\<open>'setup'\<close> or joined any room, and let the message have its chat present, its
  \<^verbatim>\<open>chat.users\<close> an array of user objects and its sender present. Then the message is
  handled without
  error, and the queue of each socket \<open>d\<close> grows by \<open>copies\<close> packets
  \<^verbatim>\<open>'message received'\<close>: one for every entry of the array, other than the sender's,
  whose room \<open>d\<close> is in, when \<open>d\<close> is live and not in the room named by the socket id of
  \<open>a\<close>, and none otherwise.
\<close>

theorem new_message_needs_no_setup:
  assumes "connected s a"
    and "chat m = Some ch" and "users ch = UserArray (map Some us)" and "sender m = Some sndr"
  shows "\<exists>s'. server_step a (FromClient (NewMessage (Some m))) s = Inr s' \<and>
           outbox s' d = outbox s d @ replicate (copies s a (target_rooms sndr us) d) (message_packet m)"
  using new_message_step_exact [OF assms] by simp

text \<open>
  The theorem at the run \<open>bare_sender\<close>, where \<open>A\<close> has only connected: its message is
  handled and \<open>B\<close> gets one copy.
\<close>

theorem new_message_needs_no_setup_witness:
  "connected (state_after bare_sender) ''A'' \<and>
   joinedRooms ''A'' (state_after bare_sender) = {''A''} \<and>
   copies (state_after bare_sender) ''A'' (target_rooms user_A [user_A, user_B, user_C]) ''B'' = 1 \<and>
   outbox (projr (server_step ''A'' (FromClient (NewMessage (Some msg_hi))) (state_after bare_sender))) ''B''
     = outbox (state_after bare_sender) ''B'' @ [message_packet msg_hi]"
proof -
  let ?s = "state_after bare_sender"
  have live: "connected ?s ''A''" by (simp add: demo_defs)
  have only: "joinedRooms ''A'' ?s = {''A''}" by (simp add: demo_defs)
  have ch: "chat msg_hi = Some chat_R" by (simp add: msg_hi_def)
  have us: "users chat_R = UserArray (map Some [user_A, user_B, user_C])" by (simp add: chat_R_def)
  have sn: "sender msg_hi = Some user_A" by (simp add: msg_hi_def)
  have n: "copies ?s ''A'' (target_rooms user_A [user_A, user_B, user_C]) ''B'' = 1"
    by (simp add: copies_def target_rooms_def demo_defs)
  from new_message_needs_no_setup [OF live ch us sn, of "''B''"] obtain s' where
    "server_step ''A'' (FromClient (NewMessage (Some msg_hi))) ?s = Inr s'"
    "outbox s' ''B'' = outbox ?s ''B'' @ replicate (copies ?s ''A'' (target_rooms user_A [user_A, user_B, user_C]) ''B'') (message_packet msg_hi)"
    by blast
  with live only n show ?thesis by simp
qed

text \<open>
  C7 as stated fails: in \<open>bare_sender\<close> socket \<open>A\<close> has bound no identity (it never ran
  \<^verbatim>\<open>'setup'\<close> and is in no room but its own), and its message is delivered to \<open>B\<close>.
\<close>

theorem message_from_socket_without_setup_is_delivered:
  "run bare_sender io_init = Inr (state_after bare_sender) \<and>
   joinedRooms ''A'' (state_after bare_sender) = {''A''} \<and>
   server_step ''A'' (FromClient (NewMessage (Some msg_hi))) (state_after bare_sender)
     = Inr (projr (server_step ''A'' (FromClient (NewMessage (Some msg_hi))) (state_after bare_sender))) \<and>
   outbox (projr (server_step ''A'' (FromClient (NewMessage (Some msg_hi))) (state_after bare_sender))) ''B''
     = [Packet ''connected'' None, Packet ''message received'' (Some msg_hi)]"
  by (simp add: demo_defs)

text \<open>
  C8, as the code has it. The emit to a room returns \<^verbatim>\<open>true\<close> in every state,
  not a report of what was delivered. For a live socket \<open>a\<close> and a message with its
  chat present, its \<^verbatim>\<open>chat.users\<close> an array of user objects and its sender present,
  the handler does not throw and changes no more than queues: the console and both
  indexes stay as they were, a socket that is not live gets nothing, and when no
  target room has a member the whole state is unchanged.
\<close>

theorem new_message_to_empty_rooms_changes_nothing:
  assumes "connected s a"
    and "chat m = Some ch" and "users ch = UserArray (map Some us)" and "sender m = Some sndr"
  shows "fst (socket_to_emit a r p s) = True \<and>
         (\<exists>s'. server_step a (FromClient (NewMessage (Some m))) s = Inr s' \<and>
           console s' = console s \<and> rooms s' = rooms s \<and> sids s' = sids s \<and>
           (\<not> connected s d \<longrightarrow> outbox s' d = outbox s d) \<and>
           ((\<forall>u\<in>set us. user_id u \<noteq> user_id sndr \<longrightarrow> membersOf (user_id u) s = {}) \<longrightarrow> s' = s))"
proof -
  let ?n = "\<lambda>x. copies s a (target_rooms sndr us) x"
  let ?s' = "s\<lparr>outbox := (\<lambda>x. outbox s x @ replicate (?n x) (message_packet m))\<rparr>"
  have st: "server_step a (FromClient (NewMessage (Some m))) s = Inr ?s'"
    using new_message_step_exact [OF assms] .
  have dead: "\<not> connected s d \<longrightarrow> outbox ?s' d = outbox s d"
    by (simp add: copies_def)
  have empty: "(\<forall>u\<in>set us. user_id u \<noteq> user_id sndr \<longrightarrow> membersOf (user_id u) s = {}) \<longrightarrow> ?s' = s"
  proof
    assume e: "\<forall>u\<in>set us. user_id u \<noteq> user_id sndr \<longrightarrow> membersOf (user_id u) s = {}"
    have "filter (\<lambda>r. x \<in> rooms s r) (target_rooms sndr us) = []" for x
      using e by (auto simp: filter_empty_conv target_rooms_def membersOf_def)
    then have "?n x = 0" for x by (simp add: copies_def)
    then show "?s' = s" by simp
  qed
  have "fst (socket_to_emit a r p s) = True" by (simp add: socket_to_emit_def)
  with st dead empty show ?thesis by simp
qed

text \<open>
  The theorem at the run \<open>b_gone\<close>: \<open>B\<close> has disconnected, the rooms \<open>uB\<close> and \<open>uC\<close>
  are empty, and the message of \<open>A\<close> returns normally with the state unchanged.
\<close>

theorem new_message_to_empty_rooms_changes_nothing_witness:
  "connected (state_after b_gone) ''A'' \<and> \<not> connected (state_after b_gone) ''B'' \<and>
   membersOf ''uB'' (state_after b_gone) = {} \<and> membersOf ''uC'' (state_after b_gone) = {} \<and>
   server_step ''A'' (FromClient (NewMessage (Some msg_hi))) (state_after b_gone) = Inr (state_after b_gone)"
proof -
  let ?s = "state_after b_gone"
  have live: "connected ?s ''A''" and gone: "\<not> connected ?s ''B''" by (simp_all add: demo_defs)
  have ch: "chat msg_hi = Some chat_R" by (simp add: msg_hi_def)
  have us: "users chat_R = UserArray (map Some [user_A, user_B, user_C])" by (simp add: chat_R_def)
  have sn: "sender msg_hi = Some user_A" by (simp add: msg_hi_def)
  have e: "membersOf ''uB'' ?s = {} \<and> membersOf ''uC'' ?s = {}" by (simp add: demo_defs)
  then have all: "\<forall>u\<in>set [user_A, user_B, user_C]. user_id u \<noteq> user_id user_A \<longrightarrow> membersOf (user_id u) ?s = {}"
    by (simp add: user_A_def user_B_def user_C_def)
  from new_message_to_empty_rooms_changes_nothing [OF live ch us sn, of "''uB''" "message_packet msg_hi" "''B''"] all
  have "server_step ''A'' (FromClient (NewMessage (Some msg_hi))) ?s = Inr ?s" by auto
  with live gone e show ?thesis by simp
qed

text \<open>
  C8 as stated fails: the broadcast to the room \<open>uB\<close> returns the same \<^verbatim>\<open>true\<close> in
  the run \<open>b_gone\<close>, where the room has no member since \<open>B\<close> disconnected and nothing is
  delivered, and in the run \<open>three_set_up\<close>, where \<open>B\<close> is in the room and gets the
  packet: the value carries neither a delivered count nor a dropped count.
\<close>

theorem emit_returns_true_whatever_is_delivered:
  "membersOf ''uB'' (state_after b_gone) = {} \<and>
   fst (socket_to_emit ''A'' ''uB'' (message_packet msg_hi) (state_after b_gone)) = True \<and>
   outbox (snd (socket_to_emit ''A'' ''uB'' (message_packet msg_hi) (state_after b_gone))) ''B''
     = outbox (state_after b_gone) ''B'' \<and>
   membersOf ''uB'' (state_after three_set_up) = {''B''} \<and>
   fst (socket_to_emit ''A'' ''uB'' (message_packet msg_hi) (state_after three_set_up)) = True \<and>
   outbox (snd (socket_to_emit ''A'' ''uB'' (message_packet msg_hi) (state_after three_set_up))) ''B''
     = outbox (state_after three_set_up) ''B'' @ [message_packet msg_hi]"
  by (simp add: demo_defs)

section \<open>Personal rooms and chat rooms\<close>

text \<open>
  C10, as the code has it. Let live socket \<open>a\<close> send, in a reachable state, a message
  with its chat present, its \<^verbatim>\<open>chat.users\<close> an array of user objects and its sender
  present. On the handler's return, for every socket \<open>d\<close>:
  \<^item> \<open>d\<close> gets the message exactly when it is in the room of some listed user other than
    the sender and is not in the room named by the socket id of \<open>a\<close>;
  \<^item> if \<open>d\<close> is live and outside the room named by the socket id of \<open>a\<close>, then after
    \<^verbatim>\<open>'setup'\<close> as a listed user \<open>u\<close> other than the sender, whose id is not that
    socket id, \<open>d\<close> is in the room of \<open>u\<close> and gets the message, with no
    \<^verbatim>\<open>'join chat'\<close> needed;
  \<^item> if \<open>d\<close> is in the room of no listed user other than the sender and the chat id is
    the id of none of them, then after \<^verbatim>\<open>'join chat'\<close> for the chat id \<open>d\<close> does not
    get the message.
\<close>

theorem delivery_goes_to_personal_rooms:
  assumes "run es io_init = Inr s"
    and "connected s a"
    and "chat m = Some ch" and "users ch = UserArray (map Some us)" and "sender m = Some sndr"
  shows "(server_step a (FromClient (NewMessage (Some m))) s = Inr s' \<longrightarrow>
            (outbox s' d \<noteq> outbox s d \<longleftrightarrow>
               d \<notin> membersOf a s \<and>
               (\<exists>u\<in>set us. user_id u \<noteq> user_id sndr \<and> d \<in> membersOf (user_id u) s))) \<and>
         (connected s d \<and> d \<notin> membersOf a s \<and>
          u \<in> set us \<and> user_id u \<noteq> user_id sndr \<and> user_id u \<noteq> a \<and>
          server_step d (FromClient (Setup (Some u))) s = Inr ta \<and>
          server_step a (FromClient (NewMessage (Some m))) ta = Inr tb \<longrightarrow>
            d \<in> membersOf (user_id u) ta \<and> outbox tb d \<noteq> outbox ta d) \<and>
         ((\<forall>v\<in>set us. user_id v \<noteq> user_id sndr \<longrightarrow>
              d \<notin> membersOf (user_id v) s \<and> user_id v \<noteq> chat_id ch) \<and>
          server_step d (FromClient (JoinChat (chat_id ch))) s = Inr wa \<and>
          server_step a (FromClient (NewMessage (Some m))) wa = Inr wb \<longrightarrow>
            outbox wb d = outbox wa d)"
proof -
  from run_invariants [OF assms(1) io_init_invariants]
  have inv: "registry_consistent s" by simp
  have first: "server_step a (FromClient (NewMessage (Some m))) s = Inr s' \<longrightarrow>
      (outbox s' d \<noteq> outbox s d \<longleftrightarrow>
         d \<notin> membersOf a s \<and>
         (\<exists>u\<in>set us. user_id u \<noteq> user_id sndr \<and> d \<in> membersOf (user_id u) s))"
  proof
    assume "server_step a (FromClient (NewMessage (Some m))) s = Inr s'"
    with new_message_step_exact [OF assms(2,3,4,5)]
    have "outbox s' d = outbox s d @ replicate (copies s a (target_rooms sndr us) d) (message_packet m)"
      by auto
    then have "outbox s' d \<noteq> outbox s d \<longleftrightarrow> 0 < copies s a (target_rooms sndr us) d"
      by (simp add: append_replicate_differs)
    also have "\<dots> \<longleftrightarrow> d \<notin> membersOf a s \<and> connected s d \<and>
        (\<exists>v\<in>set us. user_id v \<noteq> user_id sndr \<and> d \<in> rooms s (user_id v))"
      by (simp add: copies_positive_iff in_target_rooms membersOf_def)
    also have "\<dots> \<longleftrightarrow> d \<notin> membersOf a s \<and>
        (\<exists>v\<in>set us. user_id v \<noteq> user_id sndr \<and> d \<in> membersOf (user_id v) s)"
      using member_is_connected [OF inv, of d] by (auto simp: membersOf_def)
    finally show "outbox s' d \<noteq> outbox s d \<longleftrightarrow>
        d \<notin> membersOf a s \<and>
        (\<exists>u\<in>set us. user_id u \<noteq> user_id sndr \<and> d \<in> membersOf (user_id u) s)" .
  qed
  have second: "connected s d \<and> d \<notin> membersOf a s \<and>
      u \<in> set us \<and> user_id u \<noteq> user_id sndr \<and> user_id u \<noteq> a \<and>
      server_step d (FromClient (Setup (Some u))) s = Inr ta \<and>
      server_step a (FromClient (NewMessage (Some m))) ta = Inr tb \<longrightarrow>
        d \<in> membersOf (user_id u) ta \<and> outbox tb d \<noteq> outbox ta d"
  proof
    assume h: "connected s d \<and> d \<notin> membersOf a s \<and>
      u \<in> set us \<and> user_id u \<noteq> user_id sndr \<and> user_id u \<noteq> a \<and>
      server_step d (FromClient (Setup (Some u))) s = Inr ta \<and>
      server_step a (FromClient (NewMessage (Some m))) ta = Inr tb"
    then have live0: "connected s d" and out0: "d \<notin> membersOf a s"
      and mem: "u \<in> set us" and other: "user_id u \<noteq> user_id sndr"
      and not_a: "user_id u \<noteq> a"
      and st1: "server_step d (FromClient (Setup (Some u))) s = Inr ta"
      and st2: "server_step a (FromClient (NewMessage (Some m))) ta = Inr tb"
      by blast+
    from st1 live0 have "on_setup d (Some u) s = Inr ta" by simp
    then have ta: "ta = snd (socket_emit d (Packet ''connected'' None) (socket_join d (user_id u) s))"
      by (simp add: on_setup_def)
    have r1: "rooms ta = (rooms s)(user_id u := insert d (rooms s (user_id u)))"
      and live_a: "connected ta a" and live_d: "connected ta d"
      using ta assms(2) live0 by (simp_all add: socket_emit_def socket_join_def connected_def)
    have in_u: "d \<in> rooms ta (user_id u)" using r1 by simp
    have out_a: "d \<notin> rooms ta a" using r1 not_a out0 by (simp add: membersOf_def)
    have "\<exists>r\<in>set (target_rooms sndr us). d \<in> rooms ta r"
      unfolding in_target_rooms using mem other in_u by blast
    with out_a live_d have "0 < copies ta a (target_rooms sndr us) d"
      by (simp add: copies_positive_iff)
    moreover from st2 new_message_step_exact [OF live_a assms(3,4,5)]
    have "outbox tb d = outbox ta d @ replicate (copies ta a (target_rooms sndr us) d) (message_packet m)"
      by auto
    ultimately show "d \<in> membersOf (user_id u) ta \<and> outbox tb d \<noteq> outbox ta d"
      using in_u by (simp add: append_replicate_differs membersOf_def)
  qed
  have third: "(\<forall>v\<in>set us. user_id v \<noteq> user_id sndr \<longrightarrow>
        d \<notin> membersOf (user_id v) s \<and> user_id v \<noteq> chat_id ch) \<and>
      server_step d (FromClient (JoinChat (chat_id ch))) s = Inr wa \<and>
      server_step a (FromClient (NewMessage (Some m))) wa = Inr wb \<longrightarrow>
        outbox wb d = outbox wa d"
  proof
    assume h: "(\<forall>v\<in>set us. user_id v \<noteq> user_id sndr \<longrightarrow>
        d \<notin> membersOf (user_id v) s \<and> user_id v \<noteq> chat_id ch) \<and>
      server_step d (FromClient (JoinChat (chat_id ch))) s = Inr wa \<and>
      server_step a (FromClient (NewMessage (Some m))) wa = Inr wb"
    then have away: "\<forall>v\<in>set us. user_id v \<noteq> user_id sndr \<longrightarrow>
        d \<notin> membersOf (user_id v) s \<and> user_id v \<noteq> chat_id ch"
      and st1: "server_step d (FromClient (JoinChat (chat_id ch))) s = Inr wa"
      and st2: "server_step a (FromClient (NewMessage (Some m))) wa = Inr wb"
      by blast+
    have r1: "\<forall>r. r \<noteq> chat_id ch \<longrightarrow> rooms wa r = rooms s r" and live_a: "connected wa a"
    proof -
      show "\<forall>r. r \<noteq> chat_id ch \<longrightarrow> rooms wa r = rooms s r"
      proof (cases "connected s d")
        case True
        with st1 have "wa = on_join_chat d (chat_id ch) s" by simp
        then show ?thesis by (simp add: on_join_chat_def console_log_def socket_join_def)
      next
        case False
        with st1 show ?thesis by simp
      qed
      show "connected wa a"
      proof (cases "connected s d")
        case True
        with st1 have "wa = on_join_chat d (chat_id ch) s" by simp
        with assms(2) show ?thesis
          by (simp add: on_join_chat_def console_log_def socket_join_def connected_def)
      next
        case False
        with st1 assms(2) show ?thesis by simp
      qed
    qed
    have none: "\<not> (\<exists>r\<in>set (target_rooms sndr us). d \<in> rooms wa r)"
      unfolding in_target_rooms using away r1 by (auto simp: membersOf_def)
    then have "copies wa a (target_rooms sndr us) d = 0"
      using copies_positive_iff [of wa a "target_rooms sndr us" d] by auto
    moreover from st2 new_message_step_exact [OF live_a assms(3,4,5)]
    have "outbox wb d = outbox wa d @ replicate (copies wa a (target_rooms sndr us) d) (message_packet m)"
      by auto
    ultimately show "outbox wb d = outbox wa d" by simp
  qed
  from first second third show ?thesis by simp
qed

text \<open>
  The theorem at the run \<open>two_connected\<close>, with \<open>A\<close> sending and \<open>B\<close> in no user's room:
  \<open>B\<close> gets nothing; after \<^verbatim>\<open>'setup'\<close> as user B it gets the message without having
  joined \<open>R\<close>; after \<^verbatim>\<open>'join chat'\<close> for \<open>R\<close> alone it is a member of \<open>R\<close> and gets
  nothing.
\<close>

theorem delivery_goes_to_personal_rooms_witness:
  "run two_connected io_init = Inr (state_after two_connected) \<and>
   connected (state_after two_connected) ''A'' \<and> connected (state_after two_connected) ''B'' \<and>
   ''B'' \<notin> membersOf ''A'' (state_after two_connected) \<and>
   outbox (projr (server_step ''A'' (FromClient (NewMessage (Some msg_hi))) (state_after two_connected))) ''B''
     = outbox (state_after two_connected) ''B'' \<and>
   ''B'' \<in> membersOf ''uB''
     (projr (server_step ''B'' (FromClient (Setup (Some user_B))) (state_after two_connected))) \<and>
   ''B'' \<notin> membersOf ''R''
     (projr (server_step ''B'' (FromClient (Setup (Some user_B))) (state_after two_connected))) \<and>
   outbox (projr (server_step ''A'' (FromClient (NewMessage (Some msg_hi)))
       (projr (server_step ''B'' (FromClient (Setup (Some user_B))) (state_after two_connected))))) ''B''
     \<noteq> outbox (projr (server_step ''B'' (FromClient (Setup (Some user_B))) (state_after two_connected))) ''B'' \<and>
   ''B'' \<in> membersOf ''R''
     (projr (server_step ''B'' (FromClient (JoinChat ''R'')) (state_after two_connected))) \<and>
   outbox (projr (server_step ''A'' (FromClient (NewMessage (Some msg_hi)))
       (projr (server_step ''B'' (FromClient (JoinChat ''R'')) (state_after two_connected))))) ''B''
     = outbox (projr (server_step ''B'' (FromClient (JoinChat ''R'')) (state_after two_connected))) ''B''"
proof -
  let ?s = "state_after two_connected"
  let ?s' = "projr (server_step ''A'' (FromClient (NewMessage (Some msg_hi))) ?s)"
  let ?t1 = "projr (server_step ''B'' (FromClient (Setup (Some user_B))) ?s)"
  let ?t2 = "projr (server_step ''A'' (FromClient (NewMessage (Some msg_hi))) ?t1)"
  let ?w1 = "projr (server_step ''B'' (FromClient (JoinChat ''R'')) ?s)"
  let ?w2 = "projr (server_step ''A'' (FromClient (NewMessage (Some msg_hi))) ?w1)"
  have r: "run two_connected io_init = Inr ?s" by (simp add: demo_defs)
  have live: "connected ?s ''A''" and live_b: "connected ?s ''B''" by (simp_all add: demo_defs)
  have ch: "chat msg_hi = Some chat_R" by (simp add: msg_hi_def)
  have us: "users chat_R = UserArray (map Some [user_A, user_B, user_C])" by (simp add: chat_R_def)
  have sn: "sender msg_hi = Some user_A" by (simp add: msg_hi_def)
  have out: "''B'' \<notin> membersOf ''A'' ?s" by (simp add: demo_defs)
  have s': "server_step ''A'' (FromClient (NewMessage (Some msg_hi))) ?s = Inr ?s'" by (simp add: demo_defs)
  have t1: "server_step ''B'' (FromClient (Setup (Some user_B))) ?s = Inr ?t1" by (simp add: demo_defs)
  have t2: "server_step ''A'' (FromClient (NewMessage (Some msg_hi))) ?t1 = Inr ?t2" by (simp add: demo_defs)
  have w1: "server_step ''B'' (FromClient (JoinChat ''R'')) ?s = Inr ?w1" by (simp add: demo_defs)
  have w2: "server_step ''A'' (FromClient (NewMessage (Some msg_hi))) ?w1 = Inr ?w2" by (simp add: demo_defs)
  have nowhere: "\<forall>v\<in>set [user_A, user_B, user_C]. user_id v \<noteq> user_id user_A \<longrightarrow>
      ''B'' \<notin> membersOf (user_id v) ?s \<and> user_id v \<noteq> chat_id chat_R"
    by (simp add: demo_defs)
  have u: "user_B \<in> set [user_A, user_B, user_C] \<and> user_id user_B \<noteq> user_id user_A \<and> user_id user_B \<noteq> ''A''"
    by (simp add: user_A_def user_B_def)
  have b_id: "user_id user_B = ''uB''" and r_id: "chat_id chat_R = ''R''"
    by (simp_all add: user_B_def chat_R_def)
  have no_R: "''B'' \<notin> membersOf ''R'' ?t1" and in_R: "''B'' \<in> membersOf ''R'' ?w1"
    by (simp_all add: demo_defs)
  note inst = delivery_goes_to_personal_rooms [where s' = ?s' and d = "''B''" and u = user_B and ta = ?t1
      and tb = ?t2 and wa = ?w1 and wb = ?w2, OF r live ch us sn]
  from inst nowhere u s' t1 t2 w1 w2 live_b out
  have "outbox ?s' ''B'' = outbox ?s ''B'' \<and> ''B'' \<in> membersOf ''uB'' ?t1 \<and>
      outbox ?t2 ''B'' \<noteq> outbox ?t1 ''B'' \<and> outbox ?w2 ''B'' = outbox ?w1 ''B''"
    unfolding b_id r_id by blast
  with r live live_b out no_R in_R show ?thesis by simp
qed

text \<open>
  C10 as stated fails, in both directions. In the run \<open>b_joins_user_room\<close> socket \<open>B\<close>
  has never run \<^verbatim>\<open>'setup'\<close> (its queue holds no \<^verbatim>\<open>'connected'\<close> packet) and has
  joined the room \<open>uB\<close> with \<^verbatim>\<open>'join chat'\<close>: it gets the message of \<open>A\<close>. In the run
  \<open>b_joins_sender_id\<close> socket \<open>B\<close> has completed \<^verbatim>\<open>'setup'\<close> as user B and has also
  joined the room named by the socket id of \<open>A\<close>: it does not get the message.
\<close>

theorem setup_is_neither_needed_nor_enough:
  "run b_joins_user_room io_init = Inr (state_after b_joins_user_room) \<and>
   outbox (state_after b_joins_user_room) ''B'' = [] \<and>
   outbox (projr (server_step ''A'' (FromClient (NewMessage (Some msg_hi))) (state_after b_joins_user_room))) ''B''
     = [Packet ''message received'' (Some msg_hi)] \<and>
   run b_joins_sender_id io_init = Inr (state_after b_joins_sender_id) \<and>
   ''B'' \<in> membersOf ''uB'' (state_after b_joins_sender_id) \<and>
   outbox (state_after b_joins_sender_id) ''B'' = [Packet ''connected'' None] \<and>
   server_step ''A'' (FromClient (NewMessage (Some msg_hi))) (state_after b_joins_sender_id)
     = Inr (projr (server_step ''A'' (FromClient (NewMessage (Some msg_hi))) (state_after b_joins_sender_id))) \<and>
   outbox (projr (server_step ''A'' (FromClient (NewMessage (Some msg_hi))) (state_after b_joins_sender_id))) ''B''
     = [Packet ''connected'' None]"
  by (simp add: demo_defs)


end
